theory Spec2Isabelle
  imports Main
begin

section \<open>The host runtime: signals, events, function objects\<close>

text \<open>
  The type \<open>ExitSignal\<close> of \<^verbatim>\<open>AsyncCleanup.ts\<close>: the five members of
  \<open>listenedSignals\<close> and the three names added by the union type.
\<close>

datatype signal = SIGBREAK | SIGHUP | SIGINT | SIGTERM | SIGUSR2 | SIGKILL | SIGQUIT | SIGSTOP

definition listenedSignals :: "signal list" where
  "listenedSignals = [SIGBREAK, SIGHUP, SIGINT, SIGTERM, SIGUSR2]"

text \<open>The event names of \<open>process\<close> that the code subscribes to.\<close>

datatype event = BeforeExit | Message | UncaughtException | Signal signal

text \<open>
  The four handler methods. A function object is either the declaration itself
  (the free functions of the module-level implementation, one object each) or the
  result of a call of \<open>bind\<close>: every such call creates a new object, told apart here by
  the number of the allocation. The event emitter compares handlers by identity,
  which is equality of these values.
\<close>

datatype handler =
  BeforeExitListener | Pm2ClusterShutdownListener | UncaughtExceptionListener | SignalListener

datatype fn = Declared handler | Bound nat handler

text \<open>
  What a cleanup listener does when it is called: it throws, returns nothing, or
  returns a promise. A promise settles as fulfilled or rejected, or never settles
  (\<open>None\<close>). Listeners are identified by values of type \<open>'l\<close>; their behaviour is the
  environment \<open>env\<close> of the functions below, and a listener's body is taken not to touch
  the registry or the subscriptions of \<open>process\<close>.
\<close>

datatype 'e settlement = Fulfilled | Rejected 'e

type_synonym 'e promise = "'e settlement option"

datatype 'e outcome = Throws 'e | Returns_void | Returns_promise "'e promise"

text \<open>
  The observable effects, in the order they happen: the lines written with
  \<open>console.log\<close> (the three template strings of the trigger handlers) and
  \<open>console.error\<close> (its text and the value logged with it), the calls of listeners,
  and the calls of \<open>process.exit\<close> and \<open>process.kill(process.pid, _)\<close>.
\<close>

datatype info =
    Exiting_with_code int
  | Exiting_due_to_signal signal
  | Exiting_due_to_PM2_cluster_shutdown

datatype ('l, 'e) effect =
    Console_log info
  | Console_error string 'e
  | Called 'l
  | Process_exit int
  | Process_kill signal

text \<open>
  The state: the field \<open>cleanupListeners\<close> (\<open>None\<close> is \<open>undefined\<close>; a JavaScript
  \<open>Set\<close> is its elements in insertion order, without duplicates), the handlers
  subscribed on \<open>process\<close> in the order of subscription, the counter of bound function
  objects, and the effects so far.
\<close>

record ('l, 'e) world =
  cleanupListeners :: "'l list option"
  subscriptions :: "(event \<times> fn) list"
  next_fn :: nat
  trace :: "('l, 'e) effect list"

subsection \<open>The event emitter of \<open>process\<close>\<close>

definition process_on :: "event \<Rightarrow> fn \<Rightarrow> ('l, 'e) world \<Rightarrow> ('l, 'e) world" where
  "process_on ev f s = s\<lparr>subscriptions := subscriptions s @ [(ev, f)]\<rparr>"

text \<open>
  \<open>removeListener\<close> removes at most one instance of the handler, the one subscribed
  last, and nothing when no subscribed handler is the given object.
\<close>

definition remove_last :: "'a \<Rightarrow> 'a list \<Rightarrow> 'a list" where
  "remove_last x xs = rev (remove1 x (rev xs))"

definition process_removeListener :: "event \<Rightarrow> fn \<Rightarrow> ('l, 'e) world \<Rightarrow> ('l, 'e) world" where
  "process_removeListener ev f s = s\<lparr>subscriptions := remove_last (ev, f) (subscriptions s)\<rparr>"

definition listeners_of :: "event \<Rightarrow> ('l, 'e) world \<Rightarrow> fn list" where
  "listeners_of ev s = map snd (filter (\<lambda>p. fst p = ev) (subscriptions s))"

text \<open>\<open>m.bind(this)\<close>: a new function object for the method \<open>m\<close>.\<close>

definition bind_fn :: "handler \<Rightarrow> ('l, 'e) world \<Rightarrow> fn \<times> ('l, 'e) world" where
  "bind_fn h s = (Bound (next_fn s) h, s\<lparr>next_fn := Suc (next_fn s)\<rparr>)"

definition console_log :: "info \<Rightarrow> ('l, 'e) world \<Rightarrow> ('l, 'e) world" where
  "console_log msg s = s\<lparr>trace := trace s @ [Console_log msg]\<rparr>"

definition console_error :: "string \<Rightarrow> 'e \<Rightarrow> ('l, 'e) world \<Rightarrow> ('l, 'e) world" where
  "console_error msg v s = s\<lparr>trace := trace s @ [Console_error msg v]\<rparr>"

definition process_exit :: "int \<Rightarrow> ('l, 'e) world \<Rightarrow> ('l, 'e) world" where
  "process_exit code s = s\<lparr>trace := trace s @ [Process_exit code]\<rparr>"

text \<open>
  \<open>process.kill(process.pid, sig)\<close> throws for a signal that the platform cannot
  send, such as a name missing from its table of signals (\<open>SIGBREAK\<close> outside
  Windows); then nothing is sent. Which signals those are depends on the platform:
  \<open>kill_throws\<close> gives the error thrown for each of them, and \<open>None\<close> for a signal
  that is sent.
\<close>

definition process_kill ::
  "(signal \<Rightarrow> 'e option) \<Rightarrow> signal \<Rightarrow> ('l, 'e) world \<Rightarrow> 'e + ('l, 'e) world" where
  "process_kill kill_throws sig s =
     (case kill_throws sig of
        Some err \<Rightarrow> Inl err
      | None \<Rightarrow> Inr (s\<lparr>trace := trace s @ [Process_kill sig]\<rparr>))"

section \<open>The class \<open>AsyncCleanup\<close>\<close>

text \<open>
  The constructor leaves \<open>cleanupListeners\<close> undefined and rebinds the eleven
  methods (allocations 0 to 10). The instance is created in a process without
  subscriptions.
\<close>

definition new_AsyncCleanup :: "('l, 'e) world" where
  "new_AsyncCleanup = \<lparr>cleanupListeners = None, subscriptions = [], next_fn = 11, trace = []\<rparr>"

text \<open>
  \<open>installExitListeners\<close> and \<open>uninstallExitListeners\<close> of the class: each argument is
  \<open>this.m.bind(this)\<close>, evaluated before the call it is passed to.
\<close>

definition subscribe_bound :: "event \<Rightarrow> handler \<Rightarrow> ('l, 'e) world \<Rightarrow> ('l, 'e) world" where
  "subscribe_bound ev h s = (case bind_fn h s of (f, s1) \<Rightarrow> process_on ev f s1)"

definition unsubscribe_bound :: "event \<Rightarrow> handler \<Rightarrow> ('l, 'e) world \<Rightarrow> ('l, 'e) world" where
  "unsubscribe_bound ev h s = (case bind_fn h s of (f, s1) \<Rightarrow> process_removeListener ev f s1)"

definition installExitListeners :: "('l, 'e) world \<Rightarrow> ('l, 'e) world" where
  "installExitListeners s =
     fold (\<lambda>sig. subscribe_bound (Signal sig) SignalListener) listenedSignals
       (subscribe_bound UncaughtException UncaughtExceptionListener
         (subscribe_bound Message Pm2ClusterShutdownListener
           (subscribe_bound BeforeExit BeforeExitListener s)))"

definition uninstallExitListeners :: "('l, 'e) world \<Rightarrow> ('l, 'e) world" where
  "uninstallExitListeners s =
     fold (\<lambda>sig. unsubscribe_bound (Signal sig) SignalListener) listenedSignals
       (unsubscribe_bound UncaughtException UncaughtExceptionListener
         (unsubscribe_bound Message Pm2ClusterShutdownListener
           (unsubscribe_bound BeforeExit BeforeExitListener s)))"

text \<open>
  \<open>Set.add\<close> and \<open>Set.delete\<close> on the insertion-ordered representation; \<open>delete\<close>
  also returns whether the element was present.
\<close>

definition set_add :: "'l \<Rightarrow> 'l list \<Rightarrow> 'l list" where
  "set_add x xs = (if x \<in> set xs then xs else xs @ [x])"

definition set_delete :: "'l \<Rightarrow> 'l list \<Rightarrow> bool \<times> 'l list" where
  "set_delete x xs = (x \<in> set xs, removeAll x xs)"

text \<open>
  What a call of \<open>add\<close> gives back: the class returns \<open>this.remove.bind(this, listener)\<close>,
  a new function object that carries the listener; the module-level function returns
  nothing.
\<close>

datatype 'l returned = Undefined | Remover nat 'l

definition add :: "'l \<Rightarrow> ('l, 'e) world \<Rightarrow> 'l returned \<times> ('l, 'e) world" where
  "add listener s =
     (let s1 = (case cleanupListeners s of
                  None \<Rightarrow> (installExitListeners s)\<lparr>cleanupListeners := Some []\<rparr>
                | Some _ \<Rightarrow> s);
          s2 = s1\<lparr>cleanupListeners := map_option (set_add listener) (cleanupListeners s1)\<rparr>
      in (Remover (next_fn s2) listener, s2\<lparr>next_fn := Suc (next_fn s2)\<rparr>))"

definition remove :: "'l \<Rightarrow> ('l, 'e) world \<Rightarrow> bool \<times> ('l, 'e) world" where
  "remove listener s =
     (case cleanupListeners s of
        None \<Rightarrow> (False, s)
      | Some listeners \<Rightarrow>
          (case set_delete listener listeners of
             (wasRegistered, listeners1) \<Rightarrow>
               (wasRegistered,
                if length listeners1 = 0
                then (uninstallExitListeners s)\<lparr>cleanupListeners := None\<rparr>
                else s\<lparr>cleanupListeners := Some listeners1\<rparr>)))"

text \<open>
  The module that imports the class creates one instance, \<open>asyncCleanup\<close>, and
  exports its methods bound to it (four more function objects); calling an export
  calls the method on that instance.
\<close>

definition asyncCleanup :: "('l, 'e) world" where
  "asyncCleanup = new_AsyncCleanup\<lparr>next_fn := 15\<rparr>"

definition addCleanupListener :: "'l \<Rightarrow> ('l, 'e) world \<Rightarrow> 'l returned \<times> ('l, 'e) world" where
  "addCleanupListener = add"

definition removeCleanupListener :: "'l \<Rightarrow> ('l, 'e) world \<Rightarrow> bool \<times> ('l, 'e) world" where
  "removeCleanupListener = remove"

section \<open>The module-level implementation\<close>

text \<open>
  \<^verbatim>\<open>index.ts\<close> declares the same operations as free functions over a module
  variable; their names carry the prefix \<open>index\<close>. Its handlers are the declared
  functions themselves.
\<close>

definition index_module :: "('l, 'e) world" where
  "index_module = \<lparr>cleanupListeners = None, subscriptions = [], next_fn = 0, trace = []\<rparr>"

definition index_installExitListeners :: "('l, 'e) world \<Rightarrow> ('l, 'e) world" where
  "index_installExitListeners s =
     fold (\<lambda>sig. process_on (Signal sig) (Declared SignalListener)) listenedSignals
       (process_on UncaughtException (Declared UncaughtExceptionListener)
         (process_on Message (Declared Pm2ClusterShutdownListener)
           (process_on BeforeExit (Declared BeforeExitListener) s)))"

definition index_uninstallExitListeners :: "('l, 'e) world \<Rightarrow> ('l, 'e) world" where
  "index_uninstallExitListeners s =
     fold (\<lambda>sig. process_removeListener (Signal sig) (Declared SignalListener)) listenedSignals
       (process_removeListener UncaughtException (Declared UncaughtExceptionListener)
         (process_removeListener Message (Declared Pm2ClusterShutdownListener)
           (process_removeListener BeforeExit (Declared BeforeExitListener) s)))"

definition index_addCleanupListener :: "'l \<Rightarrow> ('l, 'e) world \<Rightarrow> 'l returned \<times> ('l, 'e) world" where
  "index_addCleanupListener listener s =
     (let s1 = (case cleanupListeners s of
                  None \<Rightarrow> (index_installExitListeners s)\<lparr>cleanupListeners := Some []\<rparr>
                | Some _ \<Rightarrow> s)
      in (Undefined, s1\<lparr>cleanupListeners := map_option (set_add listener) (cleanupListeners s1)\<rparr>))"

definition index_removeCleanupListener :: "'l \<Rightarrow> ('l, 'e) world \<Rightarrow> bool \<times> ('l, 'e) world" where
  "index_removeCleanupListener listener s =
     (case cleanupListeners s of
        None \<Rightarrow> (False, s)
      | Some listeners \<Rightarrow>
          (case set_delete listener listeners of
             (wasRegistered, listeners1) \<Rightarrow>
               (wasRegistered, s\<lparr>cleanupListeners := Some listeners1\<rparr>)))"

section \<open>The cleanup protocol\<close>

text \<open>
  The loop of \<open>executeCleanupListeners\<close>: each listener is called inside
  \<open>try\<close>; a promise it returns is pushed, an exception it throws is logged.
\<close>

fun call_listeners ::
  "('l \<Rightarrow> 'e outcome) \<Rightarrow> 'l list \<Rightarrow> 'e promise list \<times> ('l, 'e) world
     \<Rightarrow> 'e promise list \<times> ('l, 'e) world" where
  "call_listeners env [] acc = acc"
| "call_listeners env (listener # rest) (promises, s) =
     (let s1 = s\<lparr>trace := trace s @ [Called listener]\<rparr> in
      call_listeners env rest
        (case env listener of
           Throws err \<Rightarrow> (promises, console_error ''Uncaught exception during cleanup'' err s1)
         | Returns_void \<Rightarrow> (promises, s1)
         | Returns_promise promise \<Rightarrow> (promises @ [promise], s1)))"

text \<open>
  An \<open>async\<close> function runs synchronously up to its first \<open>await\<close>. For
  \<open>executeCleanupListeners\<close> that part either returns (registry undefined) or reaches
  \<open>await Promise.allSettled(promises)\<close> with the promises collected.
\<close>

datatype ('l, 'e) started =
    Returned "('l, 'e) world"
  | Awaiting "'e promise list" "('l, 'e) world"

definition executeCleanupListeners_start ::
  "('l \<Rightarrow> 'e outcome) \<Rightarrow> ('l, 'e) world \<Rightarrow> ('l, 'e) started" where
  "executeCleanupListeners_start env s =
     (case cleanupListeners s of
        None \<Rightarrow> Returned s
      | Some listeners \<Rightarrow>
          (case call_listeners env listeners
                  ([], (uninstallExitListeners s)\<lparr>cleanupListeners := None\<rparr>) of
             (promises, s1) \<Rightarrow> Awaiting promises s1))"

text \<open>
  \<open>Promise.allSettled\<close> fulfils with the settlements of all its promises, in their
  order, once every one of them has settled; it never rejects, and it stays pending
  for ever when one of them does.
\<close>

fun allSettled :: "'e promise list \<Rightarrow> 'e settlement list option" where
  "allSettled [] = Some []"
| "allSettled (None # ps) = None"
| "allSettled (Some r # ps) = map_option ((#) r) (allSettled ps)"

text \<open>The part after the \<open>await\<close>: one line for each rejected result.\<close>

definition executeCleanupListeners_resume ::
  "'e settlement list \<Rightarrow> ('l, 'e) world \<Rightarrow> ('l, 'e) world" where
  "executeCleanupListeners_resume results s =
     fold (\<lambda>result s1. case result of
                          Rejected reason \<Rightarrow>
                            console_error ''Unhandled rejection during cleanup'' reason s1
                        | Fulfilled \<Rightarrow> s1) results s"

text \<open>
  The promise of an \<open>async\<close> function, run with nothing interleaved: it fulfils in
  some state, stays pending for ever, or rejects with the value thrown in its body.
  \<open>await\<close> passes the first on to the rest of the body and propagates the other two.
\<close>

datatype ('w, 'e) async = Finished 'w | Never | Raised 'e

definition await :: "('w, 'e) async \<Rightarrow> ('w \<Rightarrow> ('w, 'e) async) \<Rightarrow> ('w, 'e) async" where
  "await p k = (case p of Finished s \<Rightarrow> k s | Never \<Rightarrow> Never | Raised err \<Rightarrow> Raised err)"

definition executeCleanupListeners ::
  "('l \<Rightarrow> 'e outcome) \<Rightarrow> ('l, 'e) world \<Rightarrow> (('l, 'e) world, 'e) async" where
  "executeCleanupListeners env s =
     (case executeCleanupListeners_start env s of
        Returned s1 \<Rightarrow> Finished s1
      | Awaiting promises s1 \<Rightarrow>
          (case allSettled promises of
             None \<Rightarrow> Never
           | Some results \<Rightarrow> Finished (executeCleanupListeners_resume results s1)))"

text \<open>\<open>exitAfterCleanup(code = 0)\<close>: an absent argument is \<open>None\<close>.\<close>

definition exitAfterCleanup ::
  "('l \<Rightarrow> 'e outcome) \<Rightarrow> int option \<Rightarrow> ('l, 'e) world \<Rightarrow> (('l, 'e) world, 'e) async" where
  "exitAfterCleanup env code s =
     await (executeCleanupListeners env s)
       (\<lambda>s1. Finished (process_exit (case code of None \<Rightarrow> 0 | Some c \<Rightarrow> c) s1))"

definition killAfterCleanup ::
  "('l \<Rightarrow> 'e outcome) \<Rightarrow> (signal \<Rightarrow> 'e option) \<Rightarrow> signal \<Rightarrow> ('l, 'e) world
     \<Rightarrow> (('l, 'e) world, 'e) async" where
  "killAfterCleanup env kill_throws sig s =
     await (executeCleanupListeners env s)
       (\<lambda>s1. case process_kill kill_throws sig s1 of
               Inl err \<Rightarrow> Raised err
             | Inr s2 \<Rightarrow> Finished s2)"

text \<open>
  The trigger handlers start the asynchronous operation and drop its promise
  (\<open>void\<close>); their value here is what that operation comes to.
\<close>

definition beforeExitListener ::
  "('l \<Rightarrow> 'e outcome) \<Rightarrow> int \<Rightarrow> ('l, 'e) world \<Rightarrow> (('l, 'e) world, 'e) async" where
  "beforeExitListener env code s =
     exitAfterCleanup env (Some code) (console_log (Exiting_with_code code) s)"

definition uncaughtExceptionListener ::
  "('l \<Rightarrow> 'e outcome) \<Rightarrow> 'e \<Rightarrow> ('l, 'e) world \<Rightarrow> (('l, 'e) world, 'e) async" where
  "uncaughtExceptionListener env error s =
     exitAfterCleanup env (Some 1)
       (console_error ''Exiting with code 1 due to uncaught exception'' error s)"

definition signalListener ::
  "('l \<Rightarrow> 'e outcome) \<Rightarrow> (signal \<Rightarrow> 'e option) \<Rightarrow> signal \<Rightarrow> ('l, 'e) world
     \<Rightarrow> (('l, 'e) world, 'e) async" where
  "signalListener env kill_throws sig s =
     killAfterCleanup env kill_throws sig (console_log (Exiting_due_to_signal sig) s)"

definition pm2ClusterShutdownListener ::
  "('l \<Rightarrow> 'e outcome) \<Rightarrow> (signal \<Rightarrow> 'e option) \<Rightarrow> string \<Rightarrow> ('l, 'e) world
     \<Rightarrow> (('l, 'e) world, 'e) async" where
  "pm2ClusterShutdownListener env kill_throws message s =
     (if message \<noteq> ''shutdown'' then Finished s
      else killAfterCleanup env kill_throws SIGTERM
             (console_log Exiting_due_to_PM2_cluster_shutdown s))"

text \<open>The listeners called, in order, as the trace records them.\<close>

fun calls :: "('l, 'e) effect list \<Rightarrow> 'l list" where
  "calls [] = []"
| "calls (Called l # es) = l # calls es"
| "calls (_ # es) = calls es"

text \<open>What one listener contributes to the trace and to the promises collected.\<close>

definition call_effects :: "('l \<Rightarrow> 'e outcome) \<Rightarrow> 'l \<Rightarrow> ('l, 'e) effect list" where
  "call_effects env l =
     Called l # (case env l of
                   Throws err \<Rightarrow> [Console_error ''Uncaught exception during cleanup'' err]
                 | Returns_void \<Rightarrow> []
                 | Returns_promise promise \<Rightarrow> [])"

definition collected :: "('l \<Rightarrow> 'e outcome) \<Rightarrow> 'l list \<Rightarrow> 'e promise list" where
  "collected env ls =
     concat (map (\<lambda>l. case env l of
                         Throws err \<Rightarrow> []
                       | Returns_void \<Rightarrow> []
                       | Returns_promise promise \<Rightarrow> [promise]) ls)"

fun rejections :: "'e promise list \<Rightarrow> 'e list" where
  "rejections [] = []"
| "rejections (Some (Rejected reason) # ps) = reason # rejections ps"
| "rejections (_ # ps) = rejections ps"

fun world_of :: "('l, 'e) started \<Rightarrow> ('l, 'e) world" where
  "world_of (Returned s) = s"
| "world_of (Awaiting promises s) = s"

fun promises_of :: "('l, 'e) started \<Rightarrow> 'e promise list" where
  "promises_of (Returned s) = []"
| "promises_of (Awaiting promises s) = promises"

subsection \<open>Triggers that interleave\<close>

text \<open>
  Several triggers may fire while an earlier cleanup still waits for its promises.
  A trigger handler runs up to the \<open>await\<close> of \<open>exitAfterCleanup\<close> or
  \<open>killAfterCleanup\<close> and leaves a task: what \<open>executeCleanupListeners\<close> waits for
  (\<open>None\<close> when it had returned at once) and the terminal action that follows. A task
  resumes at any later moment, provided that its promises have all settled. The steps
  of a schedule are the four triggers and the resumption of the task at a position.
  When \<open>process.kill\<close> throws in a resumed task, the promise that the handler dropped
  rejects and the state stays as it is.
\<close>

datatype continuation = Then_exit int | Then_kill signal

datatype 'e task = Task "'e promise list option" continuation

datatype 'e move =
    Fire_beforeExit int
  | Fire_uncaughtException 'e
  | Fire_signal signal
  | Fire_message string
  | Resume nat

definition terminal_action ::
  "(signal \<Rightarrow> 'e option) \<Rightarrow> continuation \<Rightarrow> ('l, 'e) world \<Rightarrow> ('l, 'e) world" where
  "terminal_action kill_throws k s =
     (case k of
        Then_exit code \<Rightarrow> process_exit code s
      | Then_kill sig \<Rightarrow>
          (case process_kill kill_throws sig s of Inl err \<Rightarrow> s | Inr s1 \<Rightarrow> s1))"

definition suspend ::
  "('l \<Rightarrow> 'e outcome) \<Rightarrow> continuation \<Rightarrow> ('l, 'e) world \<times> 'e task list
     \<Rightarrow> ('l, 'e) world \<times> 'e task list" where
  "suspend env k st =
     (case st of (s, tasks) \<Rightarrow>
        (case executeCleanupListeners_start env s of
           Returned s1 \<Rightarrow> (s1, tasks @ [Task None k])
         | Awaiting promises s1 \<Rightarrow> (s1, tasks @ [Task (Some promises) k])))"

definition resume_task ::
  "(signal \<Rightarrow> 'e option) \<Rightarrow> nat \<Rightarrow> ('l, 'e) world \<times> 'e task list
     \<Rightarrow> ('l, 'e) world \<times> 'e task list" where
  "resume_task kill_throws i st =
     (case st of (s, tasks) \<Rightarrow>
        if i < length tasks then
          (case tasks ! i of
             Task None k \<Rightarrow>
               (terminal_action kill_throws k s, take i tasks @ drop (Suc i) tasks)
           | Task (Some promises) k \<Rightarrow>
               (case allSettled promises of
                  None \<Rightarrow> (s, tasks)
                | Some results \<Rightarrow>
                    (terminal_action kill_throws k (executeCleanupListeners_resume results s),
                     take i tasks @ drop (Suc i) tasks)))
        else (s, tasks))"

fun step ::
  "('l \<Rightarrow> 'e outcome) \<Rightarrow> (signal \<Rightarrow> 'e option) \<Rightarrow> 'e move
     \<Rightarrow> ('l, 'e) world \<times> 'e task list \<Rightarrow> ('l, 'e) world \<times> 'e task list" where
  "step env kill_throws (Fire_beforeExit code) (s, tasks) =
     suspend env (Then_exit code) (console_log (Exiting_with_code code) s, tasks)"
| "step env kill_throws (Fire_uncaughtException error) (s, tasks) =
     suspend env (Then_exit 1)
       (console_error ''Exiting with code 1 due to uncaught exception'' error s, tasks)"
| "step env kill_throws (Fire_signal sig) (s, tasks) =
     suspend env (Then_kill sig) (console_log (Exiting_due_to_signal sig) s, tasks)"
| "step env kill_throws (Fire_message message) (s, tasks) =
     (if message \<noteq> ''shutdown'' then (s, tasks)
      else suspend env (Then_kill SIGTERM)
             (console_log Exiting_due_to_PM2_cluster_shutdown s, tasks))"
| "step env kill_throws (Resume i) (s, tasks) = resume_task kill_throws i (s, tasks)"

definition run ::
  "('l \<Rightarrow> 'e outcome) \<Rightarrow> (signal \<Rightarrow> 'e option) \<Rightarrow> 'e move list
     \<Rightarrow> ('l, 'e) world \<times> 'e task list \<Rightarrow> ('l, 'e) world \<times> 'e task list" where
  "run env kill_throws steps st = fold (step env kill_throws) steps st"

text \<open>A step that starts the cleanup protocol.\<close>

fun starts_cleanup :: "'e move \<Rightarrow> bool" where
  "starts_cleanup (Resume i) = False"
| "starts_cleanup (Fire_message message) = (message = ''shutdown'')"
| "starts_cleanup _ = True"

section \<open>Notions used in the statements\<close>

subsection \<open>Sequences of registry operations\<close>

datatype 'l op = Add 'l | Remove 'l

datatype 'l answer = Add_returned "'l returned" | Remove_returned bool

fun apply_op :: "'l op \<Rightarrow> ('l, 'e) world \<Rightarrow> 'l answer \<times> ('l, 'e) world" where
  "apply_op (Add l) s =
     (case addCleanupListener l s of (r, s1) \<Rightarrow> (Add_returned r, s1))"
| "apply_op (Remove l) s =
     (case removeCleanupListener l s of (b, s1) \<Rightarrow> (Remove_returned b, s1))"

fun index_apply_op :: "'l op \<Rightarrow> ('l, 'e) world \<Rightarrow> 'l answer \<times> ('l, 'e) world" where
  "index_apply_op (Add l) s =
     (case index_addCleanupListener l s of (r, s1) \<Rightarrow> (Add_returned r, s1))"
| "index_apply_op (Remove l) s =
     (case index_removeCleanupListener l s of (b, s1) \<Rightarrow> (Remove_returned b, s1))"

fun apply_ops ::
  "('l op \<Rightarrow> ('l, 'e) world \<Rightarrow> 'l answer \<times> ('l, 'e) world) \<Rightarrow> 'l op list \<Rightarrow> ('l, 'e) world
     \<Rightarrow> 'l answer list \<times> ('l, 'e) world" where
  "apply_ops f [] s = ([], s)"
| "apply_ops f (x # xs) s =
     (case f x s of (a, s1) \<Rightarrow> (case apply_ops f xs s1 of (as, s2) \<Rightarrow> (a # as, s2)))"

fun removals :: "'l answer list \<Rightarrow> bool list" where
  "removals [] = []"
| "removals (Remove_returned b # as) = b # removals as"
| "removals (Add_returned r # as) = removals as"

fun additions :: "'l answer list \<Rightarrow> 'l returned list" where
  "additions [] = []"
| "additions (Add_returned r # as) = r # additions as"
| "additions (Remove_returned b # as) = additions as"

fun is_remover :: "'l returned \<Rightarrow> bool" where
  "is_remover (Remover i l) = True"
| "is_remover Undefined = False"

fun is_add :: "'l op \<Rightarrow> bool" where
  "is_add (Add l) = True"
| "is_add (Remove l) = False"

text \<open>The listeners held, none when the registry is undefined.\<close>

definition listeners :: "('l, 'e) world \<Rightarrow> 'l list" where
  "listeners s = (case cleanupListeners s of None \<Rightarrow> [] | Some ls \<Rightarrow> ls)"

text \<open>The events that the two \<open>installExitListeners\<close> subscribe to, in their order.\<close>

definition intercepted :: "event list" where
  "intercepted = [BeforeExit, Message, UncaughtException] @ map Signal listenedSignals"

definition index_handlers :: "(event \<times> fn) list" where
  "index_handlers =
     [(BeforeExit, Declared BeforeExitListener),
      (Message, Declared Pm2ClusterShutdownListener),
      (UncaughtException, Declared UncaughtExceptionListener),
      (Signal SIGBREAK, Declared SignalListener),
      (Signal SIGHUP, Declared SignalListener),
      (Signal SIGINT, Declared SignalListener),
      (Signal SIGTERM, Declared SignalListener),
      (Signal SIGUSR2, Declared SignalListener)]"

text \<open>
  The invariants of the representation: the elements of the set are distinct, and
  the class never keeps an empty set; every bound function object subscribed was
  allocated before.
\<close>

definition registry_ok :: "('l, 'e) world \<Rightarrow> bool" where
  "registry_ok s =
     (case cleanupListeners s of None \<Rightarrow> True | Some ls \<Rightarrow> distinct ls \<and> ls \<noteq> [])"

fun allocated :: "nat \<Rightarrow> event \<times> fn \<Rightarrow> bool" where
  "allocated n (ev, Bound i h) = (i < n)"
| "allocated n (ev, Declared h) = True"

definition fresh :: "('l, 'e) world \<Rightarrow> bool" where
  "fresh s = list_all (allocated (next_fn s)) (subscriptions s)"

text \<open>
  What a whole run of the protocol adds to the trace for the listeners \<open>ls\<close>: the
  calls, then one line for each rejected promise.
\<close>

definition cleanup_effects :: "('l \<Rightarrow> 'e outcome) \<Rightarrow> 'l list \<Rightarrow> ('l, 'e) effect list" where
  "cleanup_effects env ls =
     concat (map (call_effects env) ls) @
     map (Console_error ''Unhandled rejection during cleanup'') (rejections (collected env ls))"

text \<open>The exit codes and the signals sent, as the trace records them.\<close>

fun exits :: "('l, 'e) effect list \<Rightarrow> int list" where
  "exits [] = []"
| "exits (Process_exit code # es) = code # exits es"
| "exits (_ # es) = exits es"

fun kills :: "('l, 'e) effect list \<Rightarrow> signal list" where
  "kills [] = []"
| "kills (Process_kill sig # es) = sig # kills es"
| "kills (_ # es) = kills es"

definition registered :: "'l \<Rightarrow> ('l, 'e) world \<Rightarrow> bool" where
  "registered l s = (case cleanupListeners s of None \<Rightarrow> False | Some ls \<Rightarrow> l \<in> set ls)"

definition add_all :: "'l list \<Rightarrow> ('l, 'e) world \<Rightarrow> ('l, 'e) world" where
  "add_all ls s = fold (\<lambda>l s1. snd (add l s1)) ls s"

text \<open>
  An example: listener 0 throws, listener 1 returns a promise that is fulfilled,
  listener 2 one that is rejected, listener 3 one that never settles, and every other
  listener returns nothing.
\<close>

definition example_env :: "nat \<Rightarrow> string outcome" where
  "example_env l =
     (if l = 0 then Throws ''boom''
      else if l = 1 then Returns_promise (Some Fulfilled)
      else if l = 2 then Returns_promise (Some (Rejected ''failed''))
      else if l = 3 then Returns_promise None
      else Returns_void)"

definition example_world :: "(nat, string) world" where
  "example_world = add_all [0, 1, 2] new_AsyncCleanup"

text \<open>
  An example of a platform: Linux, whose table of signals has every member of
  \<open>ExitSignal\<close> but \<open>SIGBREAK\<close>.
\<close>

definition linux_kill_throws :: "signal \<Rightarrow> string option" where
  "linux_kill_throws sig = (if sig = SIGBREAK then Some ''ERR_UNKNOWN_SIGNAL'' else None)"

section \<open>Properties\<close>

subsection \<open>Fields that the operations leave alone\<close>

lemma unsubscribe_bound_fields [simp]:
  "cleanupListeners (unsubscribe_bound ev h s) = cleanupListeners s"
  "trace (unsubscribe_bound ev h s) = trace s"
  "next_fn (unsubscribe_bound ev h s) = Suc (next_fn s)"
  by (simp_all add: unsubscribe_bound_def bind_fn_def process_removeListener_def)

lemma subscribe_bound_fields [simp]:
  "cleanupListeners (subscribe_bound ev h s) = cleanupListeners s"
  "trace (subscribe_bound ev h s) = trace s"
  "next_fn (subscribe_bound ev h s) = Suc (next_fn s)"
  "subscriptions (subscribe_bound ev h s) = subscriptions s @ [(ev, Bound (next_fn s) h)]"
  by (simp_all add: subscribe_bound_def bind_fn_def process_on_def)

lemma uninstallExitListeners_fields [simp]:
  "cleanupListeners (uninstallExitListeners s) = cleanupListeners s"
  "trace (uninstallExitListeners s) = trace s"
  "next_fn (uninstallExitListeners s) = next_fn s + 8"
  by (simp_all add: uninstallExitListeners_def listenedSignals_def)

lemma installExitListeners_fields [simp]:
  "cleanupListeners (installExitListeners s) = cleanupListeners s"
  "trace (installExitListeners s) = trace s"
  "next_fn (installExitListeners s) = next_fn s + 8"
  by (simp_all add: installExitListeners_def listenedSignals_def)

lemma add_fields [simp]:
  "cleanupListeners (snd (add l s)) =
     Some (set_add l (case cleanupListeners s of None \<Rightarrow> [] | Some ls \<Rightarrow> ls))"
  "trace (snd (add l s)) = trace s"
  by (simp_all add: add_def Let_def split: option.split)

lemma remove_fields [simp]:
  "trace (snd (remove l s)) = trace s"
  "fst (remove l s) = registered l s"
  by (simp_all add: remove_def set_delete_def registered_def split: option.split)

lemma calls_append [simp]: "calls (xs @ ys) = calls xs @ calls ys"
  by (induction xs rule: calls.induct) simp_all

lemma exits_append [simp]: "exits (xs @ ys) = exits xs @ exits ys"
  by (induction xs rule: exits.induct) simp_all

lemma kills_append [simp]: "kills (xs @ ys) = kills xs @ kills ys"
  by (induction xs rule: kills.induct) simp_all

lemma logging_fields [simp]:
  "cleanupListeners (console_log msg s) = cleanupListeners s"
  "calls (trace (console_log msg s)) = calls (trace s)"
  "cleanupListeners (console_error txt v s) = cleanupListeners s"
  "calls (trace (console_error txt v s)) = calls (trace s)"
  by (simp_all add: console_log_def console_error_def)

lemma terminal_action_fields [simp]:
  "cleanupListeners (terminal_action kill_throws k s) = cleanupListeners s"
  "calls (trace (terminal_action kill_throws k s)) = calls (trace s)"
  by (simp_all add: terminal_action_def process_exit_def process_kill_def
      split: continuation.split option.split)

lemma example_world_listeners: "cleanupListeners example_world = Some [0, 1, 2]"
  by (simp add: example_world_def add_all_def set_add_def new_AsyncCleanup_def)

lemma example_world_trace: "trace example_world = []"
  by (simp add: example_world_def add_all_def new_AsyncCleanup_def)

subsection \<open>Installing and uninstalling the trigger handlers\<close>

lemma remove_last_absent: "x \<notin> set xs \<Longrightarrow> remove_last x xs = xs"
  by (simp add: remove_last_def remove1_idem)

lemma fresh_not_subscribed:
  "fresh s \<Longrightarrow> (ev, Bound (next_fn s) h) \<notin> set (subscriptions s)"
  by (auto simp: fresh_def list_all_iff)

lemma unsubscribe_bound_fresh:
  "fresh s \<Longrightarrow> unsubscribe_bound ev h s = s\<lparr>next_fn := Suc (next_fn s)\<rparr>"
  by (simp add: unsubscribe_bound_def bind_fn_def process_removeListener_def
      remove_last_absent fresh_not_subscribed)

lemma fresh_next_fn: "fresh s \<Longrightarrow> next_fn s \<le> n \<Longrightarrow> fresh (s\<lparr>next_fn := n\<rparr>)"
  apply (auto simp: fresh_def list_all_iff)
  subgoal for a b by (cases b) force+
  done

lemma uninstallExitListeners_fresh:
  "fresh s \<Longrightarrow> uninstallExitListeners s = s\<lparr>next_fn := next_fn s + 8\<rparr>"
  by (simp add: uninstallExitListeners_def listenedSignals_def unsubscribe_bound_fresh
      fresh_next_fn)

lemma new_AsyncCleanup_fresh: "fresh new_AsyncCleanup"
  by (simp add: fresh_def new_AsyncCleanup_def)

lemma subscribe_bound_fresh: "fresh s \<Longrightarrow> fresh (subscribe_bound ev h s)"
proof -
  assume "fresh s"
  then have "list_all (allocated (Suc (next_fn s))) (subscriptions s)"
    using fresh_next_fn[of s "Suc (next_fn s)"] by (simp add: fresh_def)
  then show ?thesis by (simp add: fresh_def)
qed

lemma installExitListeners_fresh: "fresh s \<Longrightarrow> fresh (installExitListeners s)"
  by (simp add: installExitListeners_def listenedSignals_def subscribe_bound_fresh)

lemma fresh_update [simp]:
  "fresh (s\<lparr>cleanupListeners := x\<rparr>) = fresh s"
  "fresh (s\<lparr>trace := t\<rparr>) = fresh s"
  by (simp_all add: fresh_def)

lemma add_fresh: "fresh s \<Longrightarrow> fresh (snd (add l s))"
  by (auto simp: add_def Let_def installExitListeners_fresh intro!: fresh_next_fn
      split: option.split)

lemma remove_fresh: "fresh s \<Longrightarrow> fresh (snd (remove l s))"
  by (auto simp: remove_def set_delete_def uninstallExitListeners_fresh intro!: fresh_next_fn
      split: option.split)

lemma uninstallExitListeners_subscriptions:
  "fresh s \<Longrightarrow> subscriptions (uninstallExitListeners s) = subscriptions s"
  by (simp add: uninstallExitListeners_fresh)

lemma remove_keeps_subscriptions:
  "fresh s \<Longrightarrow> subscriptions (snd (remove l s)) = subscriptions s"
  by (simp add: remove_def set_delete_def uninstallExitListeners_fresh split: option.split)

lemma index_uninstall_install: "index_uninstallExitListeners (index_installExitListeners s) = s"
  by (simp add: index_uninstallExitListeners_def index_installExitListeners_def listenedSignals_def
      process_removeListener_def process_on_def remove_last_def)

text \<open>
  Claim C1 fails on the class. Both \<open>installExitListeners\<close> and
  \<open>uninstallExitListeners\<close> pass \<open>this.m.bind(this)\<close>, a new function object at every
  evaluation, so \<open>removeListener\<close> is never given a subscribed handler and removes
  nothing (\<open>uninstallExitListeners_subscriptions\<close>, for every state whose subscribed
  handlers were bound earlier). After installing and uninstalling on a new instance
  the eight handlers are still subscribed. The module-level implementation passes
  the declared functions and does restore the subscriptions
  (\<open>index_uninstall_install\<close>).
\<close>

theorem uninstallExitListeners_removes_nothing:
  "subscriptions (installExitListeners (new_AsyncCleanup :: (nat, string) world)) =
     [(BeforeExit, Bound 11 BeforeExitListener),
      (Message, Bound 12 Pm2ClusterShutdownListener),
      (UncaughtException, Bound 13 UncaughtExceptionListener),
      (Signal SIGBREAK, Bound 14 SignalListener),
      (Signal SIGHUP, Bound 15 SignalListener),
      (Signal SIGINT, Bound 16 SignalListener),
      (Signal SIGTERM, Bound 17 SignalListener),
      (Signal SIGUSR2, Bound 18 SignalListener)] \<and>
   subscriptions (uninstallExitListeners (installExitListeners
       (new_AsyncCleanup :: (nat, string) world))) =
     subscriptions (installExitListeners (new_AsyncCleanup :: (nat, string) world)) \<and>
   listeners_of (Signal SIGINT) (uninstallExitListeners (installExitListeners
       (new_AsyncCleanup :: (nat, string) world))) =
     [Bound 16 SignalListener]"
proof -
  have subs: "subscriptions (installExitListeners new_AsyncCleanup :: (nat, string) world) =
     [(BeforeExit, Bound 11 BeforeExitListener),
      (Message, Bound 12 Pm2ClusterShutdownListener),
      (UncaughtException, Bound 13 UncaughtExceptionListener),
      (Signal SIGBREAK, Bound 14 SignalListener),
      (Signal SIGHUP, Bound 15 SignalListener),
      (Signal SIGINT, Bound 16 SignalListener),
      (Signal SIGTERM, Bound 17 SignalListener),
      (Signal SIGUSR2, Bound 18 SignalListener)]"
    by (simp add: installExitListeners_def listenedSignals_def new_AsyncCleanup_def)
  have same: "subscriptions (uninstallExitListeners (installExitListeners new_AsyncCleanup)
      :: (nat, string) world) = subscriptions (installExitListeners new_AsyncCleanup :: (nat, string) world)"
    by (simp add: uninstallExitListeners_subscriptions installExitListeners_fresh
        new_AsyncCleanup_fresh)
  show ?thesis
    using subs same by (simp add: listeners_of_def)
qed

text \<open>
  Claim C3 fails on the class for the same reason as C1: after \<open>add\<close> and \<open>remove\<close>
  of one listener on a new instance the registry is uninitialized again, and the eight
  handlers are still subscribed.
\<close>

theorem removing_last_listener_keeps_subscriptions:
  "cleanupListeners (snd (remove (0::nat) (snd (add 0
       (new_AsyncCleanup :: (nat, string) world))))) = None \<and>
   subscriptions (snd (remove (0::nat) (snd (add 0
       (new_AsyncCleanup :: (nat, string) world))))) =
     [(BeforeExit, Bound 11 BeforeExitListener),
      (Message, Bound 12 Pm2ClusterShutdownListener),
      (UncaughtException, Bound 13 UncaughtExceptionListener),
      (Signal SIGBREAK, Bound 14 SignalListener),
      (Signal SIGHUP, Bound 15 SignalListener),
      (Signal SIGINT, Bound 16 SignalListener),
      (Signal SIGTERM, Bound 17 SignalListener),
      (Signal SIGUSR2, Bound 18 SignalListener)]"
proof -
  let ?s1 = "snd (add (0::nat) new_AsyncCleanup) :: (nat, string) world"
  have fresh1: "fresh ?s1"
    by (simp add: add_fresh new_AsyncCleanup_fresh)
  have subs1: "subscriptions ?s1 = 
     [(BeforeExit, Bound 11 BeforeExitListener),
      (Message, Bound 12 Pm2ClusterShutdownListener),
      (UncaughtException, Bound 13 UncaughtExceptionListener),
      (Signal SIGBREAK, Bound 14 SignalListener),
      (Signal SIGHUP, Bound 15 SignalListener),
      (Signal SIGINT, Bound 16 SignalListener),
      (Signal SIGTERM, Bound 17 SignalListener),
      (Signal SIGUSR2, Bound 18 SignalListener)]"
    by (simp add: add_def Let_def installExitListeners_def listenedSignals_def new_AsyncCleanup_def)
  have listeners1: "cleanupListeners ?s1 = Some [0]"
    by (simp add: new_AsyncCleanup_def set_add_def)
  have "snd (remove 0 ?s1) = (uninstallExitListeners ?s1)\<lparr>cleanupListeners := None\<rparr>"
    using listeners1 by (simp add: remove_def set_delete_def)
  then show ?thesis
    using subs1 uninstallExitListeners_subscriptions[OF fresh1] by simp
qed

lemma installExitListeners_events:
  "map fst (subscriptions (installExitListeners s)) = map fst (subscriptions s) @ intercepted"
  by (simp add: installExitListeners_def listenedSignals_def intercepted_def)

lemma add_events:
  "set (map fst (subscriptions s)) \<subseteq> set intercepted \<Longrightarrow>
   set (map fst (subscriptions (snd (add l s)))) \<subseteq> set intercepted"
proof -
  assume subset: "set (map fst (subscriptions s)) \<subseteq> set intercepted"
  have "set (map fst (subscriptions (installExitListeners s))) \<subseteq> set intercepted"
    using subset by (simp only: installExitListeners_events set_append) simp
  with subset show ?thesis
    by (simp add: add_def Let_def split: option.split)
qed

lemma never_intercepted:
  "Signal SIGKILL \<notin> set intercepted \<and> Signal SIGQUIT \<notin> set intercepted \<and>
   Signal SIGSTOP \<notin> set intercepted"
  by (simp add: intercepted_def listenedSignals_def)

subsection \<open>The cleanup protocol\<close>

lemma call_listeners_eq:
  "call_listeners env ls (ps, s) =
     (ps @ collected env ls, s\<lparr>trace := trace s @ concat (map (call_effects env) ls)\<rparr>)"
  by (induction ls arbitrary: ps s)
     (simp_all add: collected_def call_effects_def console_error_def split: outcome.split)

lemma start_uninitialized:
  "cleanupListeners s = None \<Longrightarrow> executeCleanupListeners_start env s = Returned s"
  by (simp add: executeCleanupListeners_start_def)

lemma start_active:
  "cleanupListeners s = Some ls \<Longrightarrow>
   executeCleanupListeners_start env s =
     Awaiting (collected env ls)
       ((uninstallExitListeners s)
          \<lparr>cleanupListeners := None, trace := trace s @ concat (map (call_effects env) ls)\<rparr>)"
  by (simp add: executeCleanupListeners_start_def call_listeners_eq)

lemma calls_call_effects [simp]: "calls (concat (map (call_effects env) ls)) = ls"
  by (induction ls) (simp_all add: call_effects_def split: outcome.split)

lemma calls_errors [simp]: "calls (map (Console_error msg) xs) = []"
  by (induction xs) simp_all

lemma allSettled_None: "(allSettled ps = None) = (None \<in> set ps)"
  by (induction ps rule: allSettled.induct) auto

lemma resume_trace:
  "allSettled ps = Some rs \<Longrightarrow>
   executeCleanupListeners_resume rs s =
     s\<lparr>trace := trace s @
          map (Console_error ''Unhandled rejection during cleanup'') (rejections ps)\<rparr>"
proof (induction ps arbitrary: rs s rule: allSettled.induct)
  case 1
  then show ?case by (simp add: executeCleanupListeners_resume_def)
next
  case (2 ps)
  then show ?case by simp
next
  case (3 r ps)
  then obtain rs' where rs': "allSettled ps = Some rs'" "rs = r # rs'" by auto
  show ?case
    using 3(1)[OF rs'(1)] rs'(2)
    by (cases r) (simp_all add: executeCleanupListeners_resume_def console_error_def)
qed

lemma resume_fields:
  "cleanupListeners (executeCleanupListeners_resume rs s) = cleanupListeners s"
  "calls (trace (executeCleanupListeners_resume rs s)) = calls (trace s)"
  by (induction rs arbitrary: s)
     (simp_all add: executeCleanupListeners_resume_def console_error_def split: settlement.split)

lemma executeCleanupListeners_uninitialized:
  "cleanupListeners s = None \<Longrightarrow> executeCleanupListeners env s = Finished s"
  by (simp add: executeCleanupListeners_def start_uninitialized)

lemma executeCleanupListeners_active:
  "cleanupListeners s = Some ls \<Longrightarrow>
   executeCleanupListeners env s =
     (if None \<in> set (collected env ls) then Never
      else Finished ((uninstallExitListeners s)
             \<lparr>cleanupListeners := None, trace := trace s @ cleanup_effects env ls\<rparr>))"
  by (auto simp: executeCleanupListeners_def start_active cleanup_effects_def resume_trace
      allSettled_None[symmetric] split: option.split)

lemma executeCleanupListeners_never_raises: "executeCleanupListeners env s \<noteq> Raised err"
  by (simp add: executeCleanupListeners_def split: started.split option.split)

lemma fold_set_add_distinct: "distinct (xs @ ls) \<Longrightarrow> fold set_add ls xs = xs @ ls"
  by (induction ls arbitrary: xs) (simp_all add: set_add_def)

lemma add_all_listeners:
  "ls \<noteq> [] \<Longrightarrow>
   cleanupListeners (add_all ls s) =
     Some (fold set_add ls (case cleanupListeners s of None \<Rightarrow> [] | Some xs \<Rightarrow> xs))"
proof (induction ls arbitrary: s)
  case Nil
  then show ?case by simp
next
  case (Cons l ls)
  show ?case
  proof (cases "ls = []")
    case True
    then show ?thesis by (simp add: add_all_def)
  next
    case False
    from Cons.IH[OF False, of "snd (add l s)"] show ?thesis
      by (simp add: add_all_def)
  qed
qed

lemma add_all_trace: "trace (add_all ls s) = trace s"
  by (induction ls arbitrary: s) (simp_all add: add_all_def)

text \<open>
  Claim C4. The part of \<open>executeCleanupListeners\<close> before its \<open>await\<close> calls every
  listener of the detached set once, in the order of the set, which is the order of
  registration. A listener that throws is followed in the trace by the line
  \<open>Uncaught exception during cleanup\<close> with the value thrown, and the listeners after
  it are called all the same.
\<close>

theorem listeners_called_in_order:
  "(cleanupListeners s = Some ls \<longrightarrow>
      trace (world_of (executeCleanupListeners_start env s)) =
        trace s @ concat (map (call_effects env) ls) \<and>
      calls (trace (world_of (executeCleanupListeners_start env s))) = calls (trace s) @ ls) \<and>
   (cleanupListeners s = Some (before @ l # after) \<and> env l = Throws err \<longrightarrow>
      trace (world_of (executeCleanupListeners_start env s)) =
        trace s @ concat (map (call_effects env) before) @
        [Called l, Console_error ''Uncaught exception during cleanup'' err] @
        concat (map (call_effects env) after) \<and>
      calls (concat (map (call_effects env) after)) = after) \<and>
   (distinct ls \<and> ls \<noteq> [] \<longrightarrow>
      calls (trace (world_of (executeCleanupListeners_start env (add_all ls new_AsyncCleanup))))
        = ls)"
proof -
  have order: "cleanupListeners (add_all ls new_AsyncCleanup :: ('a, 'b) world) = Some ls"
    if "distinct ls" "ls \<noteq> []"
    using that add_all_listeners[of ls "new_AsyncCleanup :: ('a, 'b) world"]
      fold_set_add_distinct[of "[]" ls]
    by (simp add: new_AsyncCleanup_def)
  have "trace (add_all ls new_AsyncCleanup :: ('a, 'b) world) = []"
    by (simp add: add_all_trace new_AsyncCleanup_def)
  with order show ?thesis
    by (auto simp: start_active call_effects_def)
qed

theorem listeners_called_in_order_witness:
  "trace (world_of (executeCleanupListeners_start example_env example_world)) =
     [Called 0, Console_error ''Uncaught exception during cleanup'' ''boom'', Called 1, Called 2] \<and>
   calls (trace (world_of (executeCleanupListeners_start example_env example_world))) = [0, 1, 2]"
  using listeners_called_in_order[of example_world "[0, 1, 2]" example_env "[]" 0 "[1, 2]" "''boom''"]
  by (simp add: example_world_listeners example_world_trace example_env_def call_effects_def)

text \<open>
  Claim C5. The promise of \<open>executeCleanupListeners\<close> never rejects. With listeners
  registered it waits for the promises they returned: it stays pending exactly when
  one of them never settles, also when another one has been rejected before, and
  when all settle it finishes after one line \<open>Unhandled rejection during cleanup\<close>
  for each rejected promise, in the order of the promises.
\<close>

theorem cleanup_waits_for_all_promises:
  "executeCleanupListeners env s \<noteq> Raised err \<and>
   (cleanupListeners s = Some ls \<longrightarrow>
      promises_of (executeCleanupListeners_start env s) = collected env ls \<and>
      (executeCleanupListeners env s = Never) = (None \<in> set (collected env ls)) \<and>
      (None \<notin> set (collected env ls) \<longrightarrow>
         executeCleanupListeners env s =
           Finished ((uninstallExitListeners s)
             \<lparr>cleanupListeners := None,
              trace := trace s @ concat (map (call_effects env) ls) @
                map (Console_error ''Unhandled rejection during cleanup'')
                  (rejections (collected env ls))\<rparr>)))"
  by (simp add: executeCleanupListeners_never_raises executeCleanupListeners_active
      start_active cleanup_effects_def)

theorem cleanup_waits_for_all_promises_witness:
  "executeCleanupListeners example_env example_world =
     Finished ((uninstallExitListeners example_world)
       \<lparr>cleanupListeners := None,
        trace := [Called 0, Console_error ''Uncaught exception during cleanup'' ''boom'',
                  Called 1, Called 2,
                  Console_error ''Unhandled rejection during cleanup'' ''failed'']\<rparr>) \<and>
   executeCleanupListeners example_env (add_all [2, 3] new_AsyncCleanup) = Never"
proof -
  have listeners: "cleanupListeners (add_all [2, 3] new_AsyncCleanup :: (nat, string) world)
      = Some [2, 3]"
    by (simp add: add_all_def set_add_def new_AsyncCleanup_def)
  show ?thesis
    using cleanup_waits_for_all_promises[of example_env example_world _ "[0, 1, 2]"]
      cleanup_waits_for_all_promises[of example_env "add_all [2, 3] new_AsyncCleanup" _ "[2, 3]"]
    by (simp add: example_world_listeners example_world_trace listeners collected_def
        example_env_def call_effects_def)
qed

subsection \<open>Triggers that interleave\<close>

lemma suspend_uninitialized:
  "cleanupListeners s = None \<Longrightarrow>
   cleanupListeners (fst (suspend env k (s, tasks))) = None \<and>
   calls (trace (fst (suspend env k (s, tasks)))) = calls (trace s)"
  by (simp add: suspend_def start_uninitialized)

lemma suspend_active:
  "cleanupListeners s = Some ls \<Longrightarrow>
   cleanupListeners (fst (suspend env k (s, tasks))) = None \<and>
   calls (trace (fst (suspend env k (s, tasks)))) = calls (trace s) @ ls"
  by (simp add: suspend_def start_active)

lemma resume_task_fields:
  "cleanupListeners (fst (resume_task kill_throws i (s, tasks))) = cleanupListeners s \<and>
   calls (trace (fst (resume_task kill_throws i (s, tasks)))) = calls (trace s)"
  by (simp add: resume_task_def resume_fields split: task.split option.split)

lemma step_uninitialized:
  "cleanupListeners (fst st) = None \<Longrightarrow>
   cleanupListeners (fst (step env kill_throws mv st)) = None \<and>
   calls (trace (fst (step env kill_throws mv st))) = calls (trace (fst st))"
  by (cases st; cases mv) (simp_all add: suspend_uninitialized resume_task_fields)

lemma step_active:
  "cleanupListeners (fst st) = Some ls \<Longrightarrow>
   (if starts_cleanup mv
    then cleanupListeners (fst (step env kill_throws mv st)) = None \<and>
         calls (trace (fst (step env kill_throws mv st))) = calls (trace (fst st)) @ ls
    else cleanupListeners (fst (step env kill_throws mv st)) = Some ls \<and>
         calls (trace (fst (step env kill_throws mv st))) = calls (trace (fst st)))"
  by (cases st; cases mv) (simp_all add: suspend_active resume_task_fields)

lemma run_uninitialized:
  "cleanupListeners (fst st) = None \<Longrightarrow>
   cleanupListeners (fst (run env kill_throws steps st)) = None \<and>
   calls (trace (fst (run env kill_throws steps st))) = calls (trace (fst st))"
proof (induction steps arbitrary: st)
  case Nil
  then show ?case by (simp add: run_def)
next
  case (Cons mv steps)
  have "run env kill_throws (mv # steps) st = run env kill_throws steps (step env kill_throws mv st)"
    by (simp add: run_def)
  with Cons.IH[of "step env kill_throws mv st"]
    step_uninitialized[OF Cons.prems, where env = env and mv = mv and kill_throws = kill_throws]
  show ?case by simp
qed

lemma run_active:
  "cleanupListeners (fst st) = Some ls \<Longrightarrow> list_ex starts_cleanup steps \<Longrightarrow>
   cleanupListeners (fst (run env kill_throws steps st)) = None \<and>
   calls (trace (fst (run env kill_throws steps st))) = calls (trace (fst st)) @ ls"
proof (induction steps arbitrary: st)
  case Nil
  then show ?case by simp
next
  case (Cons mv steps)
  have unfold: "run env kill_throws (mv # steps) st = run env kill_throws steps (step env kill_throws mv st)"
    by (simp add: run_def)
  show ?case
  proof (cases "starts_cleanup mv")
    case True
    with step_active[OF Cons.prems(1), where env = env and mv = mv and kill_throws = kill_throws]
    have "cleanupListeners (fst (step env kill_throws mv st)) = None"
      and "calls (trace (fst (step env kill_throws mv st))) = calls (trace (fst st)) @ ls"
      by simp_all
    with run_uninitialized[where st = "step env kill_throws mv st" and env = env
        and kill_throws = kill_throws and steps = steps] unfold
    show ?thesis by simp
  next
    case False
    with step_active[OF Cons.prems(1), where env = env and mv = mv and kill_throws = kill_throws]
    have "cleanupListeners (fst (step env kill_throws mv st)) = Some ls"
      and "calls (trace (fst (step env kill_throws mv st))) = calls (trace (fst st))"
      by simp_all
    moreover from False Cons.prems(2) have "list_ex starts_cleanup steps" by simp
    ultimately show ?thesis using Cons.IH[of "step env kill_throws mv st"] unfold by simp
  qed
qed

text \<open>
  A schedule of one trigger followed by the resumption of its task is the handler run
  with nothing interleaved.
\<close>

lemma suspend_then_resume:
  "(case resume_task kill_throws 0 (suspend env k (s, [])) of
      (s1, tasks) \<Rightarrow> if tasks = [] then Finished s1 else Never) =
   await (executeCleanupListeners env s) (\<lambda>s1. Finished (terminal_action kill_throws k s1))"
  by (simp add: suspend_def resume_task_def await_def executeCleanupListeners_def
      split: started.split option.split)

lemma step_Resume: "step env kill_throws (Resume i) st = resume_task kill_throws i st"
  by (cases st) simp

lemma resume_task_none: "resume_task kill_throws i (s, []) = (s, [])"
  by (simp add: resume_task_def)

lemma exit_handlers_as_schedules:
  "beforeExitListener env code s =
     (case run env kill_throws [Fire_beforeExit code, Resume 0] (s, []) of
        (s1, tasks) \<Rightarrow> if tasks = [] then Finished s1 else Never)"
  "uncaughtExceptionListener env error s =
     (case run env kill_throws [Fire_uncaughtException error, Resume 0] (s, []) of
        (s1, tasks) \<Rightarrow> if tasks = [] then Finished s1 else Never)"
  by (simp_all add: run_def step_Resume suspend_then_resume beforeExitListener_def
      uncaughtExceptionListener_def exitAfterCleanup_def terminal_action_def)

lemma kill_handlers_as_schedules:
  "kill_throws sig = None \<Longrightarrow>
   signalListener env kill_throws sig s =
     (case run env kill_throws [Fire_signal sig, Resume 0] (s, []) of
        (s1, tasks) \<Rightarrow> if tasks = [] then Finished s1 else Never)"
  "kill_throws SIGTERM = None \<Longrightarrow>
   pm2ClusterShutdownListener env kill_throws message s =
     (case run env kill_throws [Fire_message message, Resume 0] (s, []) of
        (s1, tasks) \<Rightarrow> if tasks = [] then Finished s1 else Never)"
  by (simp_all add: run_def step_Resume suspend_then_resume resume_task_none
      signalListener_def pm2ClusterShutdownListener_def killAfterCleanup_def terminal_action_def
      process_kill_def)

lemma count_list_distinct: "distinct ls \<Longrightarrow> l \<in> set ls \<Longrightarrow> count_list ls l = 1"
  by (induction ls) auto

text \<open>
  The once-only part of claim C2 holds. When the registry is
  uninitialized, \<open>executeCleanupListeners\<close> finishes at once in the same state. When it
  holds the listeners \<open>ls\<close>, then after every schedule of triggers and resumptions in
  which at least one trigger starts the protocol (two triggers that fire while the
  first cleanup still waits for its promises included), the listeners called since are
  exactly \<open>ls\<close>, each of them once. This rests on detaching the set before the first
  call: a later start of the protocol finds the registry uninitialized, whether or
  not its handler is still subscribed.
\<close>

theorem executeCleanupListeners_once_only:
  "(cleanupListeners s = None \<longrightarrow> executeCleanupListeners env s = Finished s) \<and>
   (cleanupListeners s = Some ls \<and> list_ex starts_cleanup steps \<longrightarrow>
      calls (trace (fst (run env kill_throws steps (s, tasks)))) = calls (trace s) @ ls) \<and>
   (cleanupListeners s = Some ls \<and> distinct ls \<and> l \<in> set ls \<and> list_ex starts_cleanup steps \<longrightarrow>
      count_list (calls (trace (fst (run env kill_throws steps (s, tasks))))) l =
        Suc (count_list (calls (trace s)) l))"
  using run_active[where st = "(s, tasks)" and ls = ls and steps = steps and env = env
      and kill_throws = kill_throws]
  by (simp add: executeCleanupListeners_uninitialized count_list_distinct)

theorem executeCleanupListeners_once_only_witness:
  "calls (trace (fst (run example_env linux_kill_throws
       [Fire_signal SIGINT, Fire_beforeExit 0, Resume 1, Fire_message ''shutdown'', Resume 0]
       (example_world, [])))) = [0, 1, 2] \<and>
   count_list (calls (trace (fst (run example_env linux_kill_throws
       [Fire_signal SIGINT, Fire_beforeExit 0, Resume 1, Fire_message ''shutdown'', Resume 0]
       (example_world, []))))) 1 = 1 \<and>
   executeCleanupListeners example_env (new_AsyncCleanup :: (nat, string) world) = Finished new_AsyncCleanup"
  using executeCleanupListeners_once_only[where s = example_world and env = example_env
      and kill_throws = linux_kill_throws and ls = "[0, 1, 2]" and tasks = "[]" and l = 1
      and steps = "[Fire_signal SIGINT, Fire_beforeExit 0, Resume 1, Fire_message ''shutdown'',
        Resume 0]"]
    executeCleanupListeners_once_only[where s = "new_AsyncCleanup :: (nat, string) world"
      and env = example_env]
  by (simp add: example_world_listeners example_world_trace new_AsyncCleanup_def)

lemma start_keeps_subscriptions:
  "fresh s \<Longrightarrow> subscriptions (world_of (executeCleanupListeners_start env s)) = subscriptions s"
  by (cases "cleanupListeners s")
     (simp_all add: start_uninitialized start_active uninstallExitListeners_fresh)

lemma add_all_fresh: "fresh s \<Longrightarrow> fresh (add_all ls s)"
  by (induction ls arbitrary: s) (simp_all add: add_all_def add_fresh)

lemma add_subscriptions:
  "subscriptions (snd (add l s)) =
     (case cleanupListeners s of
        None \<Rightarrow> subscriptions (installExitListeners s)
      | Some ls \<Rightarrow> subscriptions s)"
  by (simp add: add_def Let_def split: option.split)

lemma example_world_subscriptions:
  "subscriptions example_world =
     [(BeforeExit, Bound 11 BeforeExitListener),
      (Message, Bound 12 Pm2ClusterShutdownListener),
      (UncaughtException, Bound 13 UncaughtExceptionListener),
      (Signal SIGBREAK, Bound 14 SignalListener),
      (Signal SIGHUP, Bound 15 SignalListener),
      (Signal SIGINT, Bound 16 SignalListener),
      (Signal SIGTERM, Bound 17 SignalListener),
      (Signal SIGUSR2, Bound 18 SignalListener)]"
  by (simp add: example_world_def add_all_def add_subscriptions)
     (simp add: installExitListeners_def listenedSignals_def new_AsyncCleanup_def)

text \<open>
  Claim C2 fails on the class where it says that the protocol uninstalls the triggers
  before it runs any listener. The protocol calls \<open>uninstallExitListeners\<close> first, and
  that call removes no subscription, which is the defect of C1
  (\<open>start_keeps_subscriptions\<close>, for every state whose subscribed handlers were bound
  earlier). With three listeners registered on a new instance, the eight handlers are
  still subscribed when the listeners have been called and the protocol waits for
  their promises; only the registry has been detached.
\<close>

theorem cleanup_keeps_handlers_subscribed:
  "cleanupListeners (world_of (executeCleanupListeners_start example_env example_world)) = None \<and>
   calls (trace (world_of (executeCleanupListeners_start example_env example_world))) =
     [0, 1, 2] \<and>
   subscriptions (world_of (executeCleanupListeners_start example_env example_world)) =
     [(BeforeExit, Bound 11 BeforeExitListener),
      (Message, Bound 12 Pm2ClusterShutdownListener),
      (UncaughtException, Bound 13 UncaughtExceptionListener),
      (Signal SIGBREAK, Bound 14 SignalListener),
      (Signal SIGHUP, Bound 15 SignalListener),
      (Signal SIGINT, Bound 16 SignalListener),
      (Signal SIGTERM, Bound 17 SignalListener),
      (Signal SIGUSR2, Bound 18 SignalListener)] \<and>
   listeners_of (Signal SIGINT)
       (world_of (executeCleanupListeners_start example_env example_world)) =
     [Bound 16 SignalListener]"
proof -
  have "fresh example_world"
    by (simp add: example_world_def add_all_fresh new_AsyncCleanup_fresh)
  then have "subscriptions (world_of (executeCleanupListeners_start example_env example_world)) =
      subscriptions example_world"
    by (rule start_keeps_subscriptions)
  then show ?thesis
    by (simp add: listeners_of_def example_world_subscriptions)
       (simp add: start_active example_world_listeners example_world_trace call_effects_def
          example_env_def)
qed

subsection \<open>Registering and removing\<close>

lemma add_registry_ok: "registry_ok s \<Longrightarrow> registry_ok (snd (add l s))"
  by (auto simp: registry_ok_def set_add_def split: option.splits)

lemma remove_registry_ok: "registry_ok s \<Longrightarrow> registry_ok (snd (remove l s))"
  by (auto simp: registry_ok_def remove_def set_delete_def distinct_removeAll split: option.splits)

lemma start_registry_ok: "registry_ok (world_of (executeCleanupListeners_start env s))"
  by (cases "cleanupListeners s") (simp_all add: registry_ok_def start_uninitialized start_active)

lemma set_add_idem: "set_add l (set_add l xs) = set_add l xs"
  by (simp add: set_add_def)

lemma set_add_distinct: "distinct xs \<Longrightarrow> distinct (set_add l xs)"
  by (simp add: set_add_def)

lemma set_add_member: "l \<in> set (set_add l xs)"
  by (simp add: set_add_def)

text \<open>
  Claim C6. Registration has set semantics: a second \<open>add\<close> of the same listener
  leaves the listener set as the first one made it, and once cleanup is triggered,
  by any schedule in which a trigger starts the protocol, the listener has been called
  exactly once more than before.
\<close>

theorem add_twice_called_once:
  "cleanupListeners (snd (add l (snd (add l s)))) = cleanupListeners (snd (add l s)) \<and>
   (registry_ok s \<and> list_ex starts_cleanup steps \<longrightarrow>
      count_list (calls (trace (fst (run env kill_throws steps (snd (add l (snd (add l s))), tasks))))) l =
        Suc (count_list (calls (trace s)) l))"
proof -
  let ?xs = "case cleanupListeners s of None \<Rightarrow> [] | Some ls \<Rightarrow> ls"
  let ?s2 = "snd (add l (snd (add l s)))"
  have listeners: "cleanupListeners ?s2 = Some (set_add l ?xs)"
    by (simp add: set_add_idem)
  have "distinct (set_add l ?xs)" if "registry_ok s"
    using that by (auto simp: registry_ok_def set_add_distinct split: option.splits)
  then have "count_list (set_add l ?xs) l = 1" if "registry_ok s"
    using that by (simp add: count_list_distinct set_add_member)
  moreover have "calls (trace (fst (run env kill_throws steps (?s2, tasks)))) = calls (trace s) @ set_add l ?xs"
    if "list_ex starts_cleanup steps"
    using run_active[where st = "(?s2, tasks)" and ls = "set_add l ?xs" and steps = steps
        and env = env and kill_throws = kill_throws] that listeners by simp
  ultimately show ?thesis
    using listeners by simp
qed

lemma new_AsyncCleanup_ok: "registry_ok new_AsyncCleanup"
  by (simp add: registry_ok_def new_AsyncCleanup_def)

theorem add_twice_called_once_witness:
  "cleanupListeners (snd (add (1::nat) (snd (add 1 new_AsyncCleanup)))
      :: (nat, string) world) = Some [1] \<and>
   calls (trace (fst (run example_env linux_kill_throws [Fire_signal SIGTERM]
      (snd (add 1 (snd (add 1 new_AsyncCleanup))), [])))) = [1] \<and>
   count_list (calls (trace (fst (run example_env linux_kill_throws [Fire_signal SIGTERM]
      (snd (add 1 (snd (add 1 new_AsyncCleanup))), []))))) 1 = 1"
proof -
  have "calls (trace (fst (run example_env linux_kill_throws [Fire_signal SIGTERM]
      (snd (add 1 (snd (add 1 new_AsyncCleanup))), [])))) = [1]"
    using run_active[where st = "(snd (add 1 (snd (add 1 new_AsyncCleanup))), [])"
        and ls = "[1]" and steps = "[Fire_signal SIGTERM]" and env = example_env
        and kill_throws = linux_kill_throws]
    by (simp add: new_AsyncCleanup_def set_add_def)
  then show ?thesis
    using add_twice_called_once[where l = 1 and s = "new_AsyncCleanup :: (nat, string) world"
        and steps = "[Fire_signal SIGTERM]" and env = example_env and tasks = "[]"
        and kill_throws = linux_kill_throws]
    by (simp add: new_AsyncCleanup_ok) (simp add: new_AsyncCleanup_def set_add_def)
qed

lemma registered_after_remove: "\<not> registered l (snd (remove l s))"
  by (simp add: remove_def set_delete_def registered_def split: option.split)

text \<open>
  Claim C7. \<open>remove\<close> returns whether the listener was registered when it was called;
  a second \<open>remove\<close> of the same listener right after it returns false; on an
  uninitialized registry it returns false and leaves the state as it was. \<open>add\<close> and
  \<open>remove\<close> contain no \<open>throw\<close> and call nothing that throws, so they are total
  functions without an error result here.
\<close>

theorem remove_reports_registration:
  "fst (remove l s) = registered l s \<and>
   fst (remove l (snd (remove l s))) = False \<and>
   (cleanupListeners s = None \<longrightarrow> remove l s = (False, s))"
  by (simp add: registered_after_remove) (simp add: remove_def)

theorem remove_reports_registration_witness:
  "fst (remove 1 example_world) = True \<and>
   fst (remove 1 (snd (remove 1 example_world))) = False \<and>
   fst (remove 7 example_world) = False \<and>
   remove (1::nat) (new_AsyncCleanup :: (nat, string) world) = (False, new_AsyncCleanup)"
  using remove_reports_registration[of 1 example_world]
    remove_reports_registration[of 7 example_world]
    remove_reports_registration[of "1::nat" "new_AsyncCleanup :: (nat, string) world"]
  by (simp add: registered_def example_world_listeners) (simp add: new_AsyncCleanup_def)

subsection \<open>Terminal actions\<close>

lemma exitAfterCleanup_uninitialized:
  "cleanupListeners s = None \<Longrightarrow>
   exitAfterCleanup env code s =
     Finished (s\<lparr>trace := trace s @ [Process_exit (case code of None \<Rightarrow> 0 | Some c \<Rightarrow> c)]\<rparr>)"
  by (simp add: exitAfterCleanup_def await_def executeCleanupListeners_uninitialized
      process_exit_def)

lemma exitAfterCleanup_active:
  "cleanupListeners s = Some ls \<Longrightarrow>
   exitAfterCleanup env code s =
     (if None \<in> set (collected env ls) then Never
      else Finished ((uninstallExitListeners s)
             \<lparr>cleanupListeners := None,
              trace := trace s @ cleanup_effects env ls @
                [Process_exit (case code of None \<Rightarrow> 0 | Some c \<Rightarrow> c)]\<rparr>))"
  by (simp add: exitAfterCleanup_def await_def executeCleanupListeners_active process_exit_def)

lemma exits_call_effects [simp]: "exits (concat (map (call_effects env) ls)) = []"
  by (induction ls) (simp_all add: call_effects_def split: outcome.split)

lemma kills_call_effects [simp]: "kills (concat (map (call_effects env) ls)) = []"
  by (induction ls) (simp_all add: call_effects_def split: outcome.split)

lemma exits_errors [simp]: "exits (map (Console_error msg) xs) = []"
  by (induction xs) simp_all

lemma kills_errors [simp]: "kills (map (Console_error msg) xs) = []"
  by (induction xs) simp_all

lemma cleanup_effects_terminal [simp]:
  "exits (cleanup_effects env ls) = []" "kills (cleanup_effects env ls) = []"
  by (simp_all add: cleanup_effects_def)

text \<open>
  Claim C8. \<open>exitAfterCleanup\<close> runs the cleanup protocol to its end and then calls
  \<open>process.exit\<close> with the code given, 0 when none is given: the exit is the last
  effect, after the calls of the listeners and the lines for rejections, none of which
  is an exit or a signal; while a promise of a listener never settles it does not exit.
  On an uninitialized registry it exits with the code given, whatever the code is
  (\<open>exitAfterCleanup(3)\<close> with code 3), and changes nothing else: no subscription is
  touched and no function object is bound, which \<open>uninstallExitListeners\<close> would do.
\<close>

theorem exitAfterCleanup_exits_with_code:
  "(cleanupListeners s = Some ls \<and> None \<notin> set (collected env ls) \<longrightarrow>
      exitAfterCleanup env code s =
        Finished ((uninstallExitListeners s)
          \<lparr>cleanupListeners := None,
           trace := trace s @ cleanup_effects env ls @
             [Process_exit (case code of None \<Rightarrow> 0 | Some c \<Rightarrow> c)]\<rparr>) \<and>
      exits (cleanup_effects env ls) = [] \<and> kills (cleanup_effects env ls) = []) \<and>
   (cleanupListeners s = Some ls \<and> None \<in> set (collected env ls) \<longrightarrow>
      exitAfterCleanup env code s = Never) \<and>
   (cleanupListeners s = None \<longrightarrow>
      exitAfterCleanup env code s =
        Finished (s\<lparr>trace := trace s @
          [Process_exit (case code of None \<Rightarrow> 0 | Some c \<Rightarrow> c)]\<rparr>) \<and>
      exitAfterCleanup env (Some c) s = Finished (s\<lparr>trace := trace s @ [Process_exit c]\<rparr>) \<and>
      exitAfterCleanup env (Some 3) s = Finished (s\<lparr>trace := trace s @ [Process_exit 3]\<rparr>) \<and>
      exitAfterCleanup env None s = Finished (s\<lparr>trace := trace s @ [Process_exit 0]\<rparr>))"
  by (simp add: exitAfterCleanup_uninitialized exitAfterCleanup_active)

theorem exitAfterCleanup_exits_with_code_witness:
  "exitAfterCleanup example_env (Some 3) (new_AsyncCleanup :: (nat, string) world) =
     Finished \<lparr>cleanupListeners = None, subscriptions = [], next_fn = 11,
               trace = [Process_exit 3]\<rparr> \<and>
   exitAfterCleanup example_env (Some 7) (new_AsyncCleanup :: (nat, string) world) =
     Finished \<lparr>cleanupListeners = None, subscriptions = [], next_fn = 11,
               trace = [Process_exit 7]\<rparr> \<and>
   exitAfterCleanup example_env None (new_AsyncCleanup :: (nat, string) world) =
     Finished \<lparr>cleanupListeners = None, subscriptions = [], next_fn = 11,
               trace = [Process_exit 0]\<rparr> \<and>
   exitAfterCleanup example_env None example_world =
     Finished ((uninstallExitListeners example_world)
       \<lparr>cleanupListeners := None,
        trace := [Called 0, Console_error ''Uncaught exception during cleanup'' ''boom'',
                  Called 1, Called 2,
                  Console_error ''Unhandled rejection during cleanup'' ''failed'',
                  Process_exit 0]\<rparr>) \<and>
   exitAfterCleanup example_env (Some 3) (add_all [2, 3] new_AsyncCleanup) = Never"
proof -
  have listeners: "cleanupListeners (add_all [2, 3] new_AsyncCleanup :: (nat, string) world)
      = Some [2, 3]"
    by (simp add: add_all_def set_add_def new_AsyncCleanup_def)
  show ?thesis
    using exitAfterCleanup_exits_with_code[where env = example_env and c = 7
        and s = "new_AsyncCleanup :: (nat, string) world"]
      exitAfterCleanup_exits_with_code[where env = example_env and code = None
        and s = example_world and ls = "[0, 1, 2]"]
      exitAfterCleanup_exits_with_code[where env = example_env and code = "Some 3"
        and s = "add_all [2, 3] new_AsyncCleanup" and ls = "[2, 3]"]
    by (simp add: example_world_listeners example_world_trace listeners collected_def
        cleanup_effects_def example_env_def call_effects_def)
       (simp add: new_AsyncCleanup_def)
qed

lemma killAfterCleanup_uninitialized:
  "cleanupListeners s = None \<Longrightarrow>
   killAfterCleanup env kill_throws sig s =
     (case kill_throws sig of
        Some err \<Rightarrow> Raised err
      | None \<Rightarrow> Finished (s\<lparr>trace := trace s @ [Process_kill sig]\<rparr>))"
  by (simp add: killAfterCleanup_def await_def executeCleanupListeners_uninitialized
      process_kill_def split: option.split)

lemma killAfterCleanup_active:
  "cleanupListeners s = Some ls \<Longrightarrow>
   killAfterCleanup env kill_throws sig s =
     (if None \<in> set (collected env ls) then Never
      else case kill_throws sig of
             Some err \<Rightarrow> Raised err
           | None \<Rightarrow>
               Finished ((uninstallExitListeners s)
                 \<lparr>cleanupListeners := None,
                  trace := trace s @ cleanup_effects env ls @ [Process_kill sig]\<rparr>))"
  by (simp add: killAfterCleanup_def await_def executeCleanupListeners_active process_kill_def
      split: option.split)

lemma uninstallExitListeners_console_log:
  "uninstallExitListeners (console_log msg s) = console_log msg (uninstallExitListeners s)"
  by (simp add: uninstallExitListeners_def listenedSignals_def unsubscribe_bound_def bind_fn_def
      process_removeListener_def console_log_def)

text \<open>
  The schedule of a signal and the resumption of its task, when \<open>process.kill\<close> throws
  for the signal: the cleanup has run and the trace ends with it.
\<close>

lemma resumed_state:
  assumes "(case st of (s1, tasks) \<Rightarrow> if tasks = [] then Finished s1 else Never) = Finished s2"
  shows "st = (s2, [])"
  using assms by (cases st) (auto split: if_splits)

lemma run_signal_throws:
  assumes "kill_throws sig = Some err"
    and "executeCleanupListeners env (console_log (Exiting_due_to_signal sig) s) = Finished s1"
  shows "run env kill_throws [Fire_signal sig, Resume 0] (s, []) = (s1, [])"
proof -
  let ?st = "resume_task kill_throws 0
    (suspend env (Then_kill sig) (console_log (Exiting_due_to_signal sig) s, []))"
  have "(case ?st of (s2, tasks) \<Rightarrow> if tasks = [] then Finished s2 else Never) =
      await (executeCleanupListeners env (console_log (Exiting_due_to_signal sig) s))
        (\<lambda>s2. Finished (terminal_action kill_throws (Then_kill sig) s2))"
    by (rule suspend_then_resume)
  also have "\<dots> = Finished s1"
    using assms by (simp add: await_def terminal_action_def process_kill_def)
  finally have "?st = (s1, [])"
    by (rule resumed_state)
  then show ?thesis
    by (simp add: run_def step_Resume)
qed

lemma run_signal_throws_active:
  "kill_throws sig = Some err \<Longrightarrow> cleanupListeners s = Some ls \<Longrightarrow>
   None \<notin> set (collected env ls) \<Longrightarrow>
   run env kill_throws [Fire_signal sig, Resume 0] (s, []) =
     ((uninstallExitListeners s)
        \<lparr>cleanupListeners := None,
         trace := trace s @ [Console_log (Exiting_due_to_signal sig)] @ cleanup_effects env ls\<rparr>,
      [])"
  by (rule run_signal_throws)
     (simp_all add: executeCleanupListeners_active uninstallExitListeners_console_log,
      simp add: console_log_def)

lemma run_signal_throws_uninitialized:
  "kill_throws sig = Some err \<Longrightarrow> cleanupListeners s = None \<Longrightarrow>
   run env kill_throws [Fire_signal sig, Resume 0] (s, []) =
     (s\<lparr>trace := trace s @ [Console_log (Exiting_due_to_signal sig)]\<rparr>, [])"
  by (rule run_signal_throws)
     (simp_all add: executeCleanupListeners_uninitialized, simp add: console_log_def)

text \<open>
  Claim C9, as amended. For a signal that \<open>process.kill\<close> can send on the platform, the
  handler of the signal logs, runs the cleanup protocol and then sends the same
  signal to the process itself, as its last effect and without any call of
  \<open>process.exit\<close>. The handler of messages does the same with \<open>SIGTERM\<close> for the
  message \<open>shutdown\<close>, and nothing at all for any other message. For a signal at which
  \<open>process.kill\<close> throws, the cleanup runs all the same, no signal is sent, and the
  promise that the handler dropped rejects with that error. While a promise of a
  listener never settles, no signal is sent.
\<close>

theorem signalListener_reraises_signal:
  "(cleanupListeners s = Some ls \<and> None \<notin> set (collected env ls) \<longrightarrow>
      (kill_throws sig = None \<longrightarrow>
         signalListener env kill_throws sig s =
           Finished ((uninstallExitListeners s)
             \<lparr>cleanupListeners := None,
              trace := trace s @ [Console_log (Exiting_due_to_signal sig)] @
                cleanup_effects env ls @ [Process_kill sig]\<rparr>)) \<and>
      (kill_throws SIGTERM = None \<longrightarrow>
         pm2ClusterShutdownListener env kill_throws ''shutdown'' s =
           Finished ((uninstallExitListeners s)
             \<lparr>cleanupListeners := None,
              trace := trace s @ [Console_log Exiting_due_to_PM2_cluster_shutdown] @
                cleanup_effects env ls @ [Process_kill SIGTERM]\<rparr>)) \<and>
      (kill_throws sig = Some err \<longrightarrow>
         signalListener env kill_throws sig s = Raised err \<and>
         run env kill_throws [Fire_signal sig, Resume 0] (s, []) =
           ((uninstallExitListeners s)
              \<lparr>cleanupListeners := None,
               trace := trace s @ [Console_log (Exiting_due_to_signal sig)] @
                 cleanup_effects env ls\<rparr>,
            [])) \<and>
      (kill_throws SIGTERM = Some err \<longrightarrow>
         pm2ClusterShutdownListener env kill_throws ''shutdown'' s = Raised err) \<and>
      exits (cleanup_effects env ls) = [] \<and> kills (cleanup_effects env ls) = []) \<and>
   (cleanupListeners s = Some ls \<and> None \<in> set (collected env ls) \<longrightarrow>
      signalListener env kill_throws sig s = Never \<and>
      pm2ClusterShutdownListener env kill_throws ''shutdown'' s = Never) \<and>
   (cleanupListeners s = None \<longrightarrow>
      (kill_throws sig = None \<longrightarrow>
         signalListener env kill_throws sig s =
           Finished (s\<lparr>trace := trace s @
             [Console_log (Exiting_due_to_signal sig), Process_kill sig]\<rparr>)) \<and>
      (kill_throws SIGTERM = None \<longrightarrow>
         pm2ClusterShutdownListener env kill_throws ''shutdown'' s =
           Finished (s\<lparr>trace := trace s @
             [Console_log Exiting_due_to_PM2_cluster_shutdown, Process_kill SIGTERM]\<rparr>)) \<and>
      (kill_throws sig = Some err \<longrightarrow>
         signalListener env kill_throws sig s = Raised err \<and>
         run env kill_throws [Fire_signal sig, Resume 0] (s, []) =
           (s\<lparr>trace := trace s @ [Console_log (Exiting_due_to_signal sig)]\<rparr>, [])) \<and>
      (kill_throws SIGTERM = Some err \<longrightarrow>
         pm2ClusterShutdownListener env kill_throws ''shutdown'' s = Raised err)) \<and>
   (message \<noteq> ''shutdown'' \<longrightarrow>
      pm2ClusterShutdownListener env kill_throws message s = Finished s)"
  by (simp add: signalListener_def pm2ClusterShutdownListener_def killAfterCleanup_uninitialized
      killAfterCleanup_active uninstallExitListeners_console_log run_signal_throws_active
      run_signal_throws_uninitialized)
     (simp add: console_log_def)

theorem signalListener_reraises_signal_witness:
  "signalListener example_env linux_kill_throws SIGINT example_world =
     Finished ((uninstallExitListeners example_world)
       \<lparr>cleanupListeners := None,
        trace := [Console_log (Exiting_due_to_signal SIGINT),
                  Called 0, Console_error ''Uncaught exception during cleanup'' ''boom'',
                  Called 1, Called 2,
                  Console_error ''Unhandled rejection during cleanup'' ''failed'',
                  Process_kill SIGINT]\<rparr>) \<and>
   pm2ClusterShutdownListener example_env linux_kill_throws ''shutdown''
       (new_AsyncCleanup :: (nat, string) world) =
     Finished \<lparr>cleanupListeners = None, subscriptions = [], next_fn = 11,
       trace = [Console_log Exiting_due_to_PM2_cluster_shutdown, Process_kill SIGTERM]\<rparr> \<and>
   pm2ClusterShutdownListener example_env linux_kill_throws ''restart'' example_world =
     Finished example_world \<and>
   signalListener example_env linux_kill_throws SIGBREAK
       (new_AsyncCleanup :: (nat, string) world) = Raised ''ERR_UNKNOWN_SIGNAL'' \<and>
   signalListener example_env linux_kill_throws SIGHUP (add_all [2, 3] new_AsyncCleanup) = Never"
proof -
  have listeners: "cleanupListeners (add_all [2, 3] new_AsyncCleanup :: (nat, string) world)
      = Some [2, 3]"
    by (simp add: add_all_def set_add_def new_AsyncCleanup_def)
  show ?thesis
    using signalListener_reraises_signal[where env = example_env and sig = SIGINT
        and kill_throws = linux_kill_throws and s = example_world and ls = "[0, 1, 2]"
        and message = "''restart''"]
      signalListener_reraises_signal[where env = example_env and sig = SIGBREAK
        and kill_throws = linux_kill_throws and err = "''ERR_UNKNOWN_SIGNAL''"
        and s = "new_AsyncCleanup :: (nat, string) world" and message = "''restart''"]
      signalListener_reraises_signal[where env = example_env and sig = SIGHUP
        and kill_throws = linux_kill_throws and s = "add_all [2, 3] new_AsyncCleanup"
        and ls = "[2, 3]" and message = "''restart''"]
    by (simp add: example_world_listeners example_world_trace listeners collected_def
        cleanup_effects_def example_env_def call_effects_def linux_kill_throws_def)
       (simp add: new_AsyncCleanup_def)
qed

text \<open>
  Claim C9 as stated fails at \<open>SIGBREAK\<close>, one of the five signals listened for, on a
  platform whose \<open>process.kill\<close> does not know it: the handler runs the cleanup, the
  listeners are called, and then \<open>process.kill\<close> throws, so that no signal is sent.
\<close>

theorem signalListener_unknown_signal:
  "SIGBREAK \<in> set listenedSignals \<and>
   signalListener example_env linux_kill_throws SIGBREAK example_world =
     Raised ''ERR_UNKNOWN_SIGNAL'' \<and>
   trace (fst (run example_env linux_kill_throws [Fire_signal SIGBREAK, Resume 0]
       (example_world, []))) =
     [Console_log (Exiting_due_to_signal SIGBREAK),
      Called 0, Console_error ''Uncaught exception during cleanup'' ''boom'',
      Called 1, Called 2,
      Console_error ''Unhandled rejection during cleanup'' ''failed''] \<and>
   kills (trace (fst (run example_env linux_kill_throws [Fire_signal SIGBREAK, Resume 0]
       (example_world, [])))) = []"
proof -
  have throws: "linux_kill_throws SIGBREAK = Some ''ERR_UNKNOWN_SIGNAL''"
    by (simp add: linux_kill_throws_def)
  have settle: "None \<notin> set (collected example_env [0, 1, 2])"
    by (simp add: collected_def example_env_def)
  have "signalListener example_env linux_kill_throws SIGBREAK example_world =
      Raised ''ERR_UNKNOWN_SIGNAL''"
    using settle throws
    by (simp add: signalListener_def killAfterCleanup_active example_world_listeners)
  then show ?thesis
    using run_signal_throws_active[where kill_throws = linux_kill_throws and sig = SIGBREAK
        and env = example_env, OF throws example_world_listeners settle]
    by (simp add: listenedSignals_def example_world_trace cleanup_effects_def collected_def
        example_env_def call_effects_def)
qed

subsection \<open>The two implementations compared\<close>

lemma index_add_fields [simp]:
  "fst (index_addCleanupListener l m) = Undefined"
  "cleanupListeners (snd (index_addCleanupListener l m)) = Some (set_add l (listeners m))"
  "trace (snd (index_addCleanupListener l m)) = trace m"
  by (simp_all add: index_addCleanupListener_def listeners_def index_installExitListeners_def
      listenedSignals_def process_on_def split: option.split)

lemma index_remove_fields [simp]:
  "fst (index_removeCleanupListener l m) = (l \<in> set (listeners m))"
  "listeners (snd (index_removeCleanupListener l m)) = removeAll l (listeners m)"
  "subscriptions (snd (index_removeCleanupListener l m)) = subscriptions m"
  by (simp_all add: index_removeCleanupListener_def listeners_def set_delete_def split: option.split)

lemma remove_listeners [simp]:
  "listeners (snd (remove l s)) = removeAll l (listeners s)"
  by (auto simp: remove_def listeners_def set_delete_def split: option.split)

lemma apply_ops_Cons:
  "apply_ops f (x # xs) s =
     (fst (f x s) # fst (apply_ops f xs (snd (f x s))), snd (apply_ops f xs (snd (f x s))))"
  by (simp add: split_beta)

lemma apply_op_parts [simp]:
  "fst (apply_op (Add l) s) = Add_returned (fst (add l s))"
  "snd (apply_op (Add l) s) = snd (add l s)"
  "fst (apply_op (Remove l) s) = Remove_returned (fst (remove l s))"
  "snd (apply_op (Remove l) s) = snd (remove l s)"
  by (simp_all add: addCleanupListener_def removeCleanupListener_def split_beta)

lemma index_apply_op_parts [simp]:
  "fst (index_apply_op (Add l) s) = Add_returned (fst (index_addCleanupListener l s))"
  "snd (index_apply_op (Add l) s) = snd (index_addCleanupListener l s)"
  "fst (index_apply_op (Remove l) s) = Remove_returned (fst (index_removeCleanupListener l s))"
  "snd (index_apply_op (Remove l) s) = snd (index_removeCleanupListener l s)"
  by (simp_all add: split_beta)

lemma add_result [simp]: "is_remover (fst (add l s))"
  by (simp add: add_def Let_def)

lemma add_listeners [simp]:
  "listeners (snd (add l s)) = set_add l (listeners s)"
  by (simp add: listeners_def)

lemma index_add_listeners [simp]:
  "listeners (snd (index_addCleanupListener l m)) = set_add l (listeners m)"
  by (simp add: listeners_def)

lemma registered_listeners: "registered l s = (l \<in> set (listeners s))"
  by (simp add: registered_def listeners_def split: option.split)

lemma implementations_simulate:
  "listeners c = listeners m \<Longrightarrow>
   removals (fst (apply_ops apply_op ops c)) = removals (fst (apply_ops index_apply_op ops m)) \<and>
   listeners (snd (apply_ops apply_op ops c)) = listeners (snd (apply_ops index_apply_op ops m)) \<and>
   list_all is_remover (additions (fst (apply_ops apply_op ops c))) \<and>
   list_all (\<lambda>r. r = Undefined) (additions (fst (apply_ops index_apply_op ops m)))"
proof (induction ops arbitrary: c m)
  case Nil
  then show ?case by simp
next
  case (Cons x ops)
  show ?case
  proof (cases x)
    case (Add l)
    have "listeners (snd (add l c)) = listeners (snd (index_addCleanupListener l m))"
      using Cons.prems by simp
    from Cons.IH[OF this] show ?thesis
      using Add by (simp add: apply_ops_Cons del: apply_ops.simps apply_op.simps index_apply_op.simps)
  next
    case (Remove l)
    have "listeners (snd (remove l c)) = listeners (snd (index_removeCleanupListener l m))"
      using Cons.prems by simp
    from Cons.IH[OF this] show ?thesis
      using Remove Cons.prems
      by (simp add: apply_ops_Cons registered_listeners del: apply_ops.simps apply_op.simps index_apply_op.simps)
  qed
qed

lemma apply_ops_fresh: "fresh s \<Longrightarrow> fresh (snd (apply_ops apply_op ops s))"
proof (induction ops arbitrary: s)
  case Nil
  then show ?case by simp
next
  case (Cons x ops)
  then show ?case
    by (cases x)
       (simp_all add: apply_ops_Cons add_fresh remove_fresh
          del: apply_ops.simps apply_op.simps index_apply_op.simps)
qed

lemma reachable_events:
  "fresh s \<Longrightarrow> set (map fst (subscriptions s)) \<subseteq> set intercepted \<Longrightarrow>
   set (map fst (subscriptions (snd (apply_ops apply_op ops s)))) \<subseteq> set intercepted"
proof (induction ops arbitrary: s)
  case Nil
  then show ?case by simp
next
  case (Cons x ops)
  show ?case
  proof (cases x)
    case (Add l)
    from Cons.IH[OF add_fresh[OF Cons.prems(1)] add_events[OF Cons.prems(2)]]
    show ?thesis
      using Add by (simp add: apply_ops_Cons del: apply_ops.simps apply_op.simps index_apply_op.simps)
  next
    case (Remove l)
    have "set (map fst (subscriptions (snd (remove l s)))) \<subseteq> set intercepted"
      using Cons.prems by (simp add: remove_keeps_subscriptions)
    from Cons.IH[OF remove_fresh[OF Cons.prems(1)] this]
    show ?thesis
      using Remove
      by (simp add: apply_ops_Cons del: apply_ops.simps apply_op.simps index_apply_op.simps)
  qed
qed

lemma apply_ops_registry_ok:
  "registry_ok s \<Longrightarrow> registry_ok (snd (apply_ops apply_op ops s))"
proof (induction ops arbitrary: s)
  case Nil
  then show ?case by simp
next
  case (Cons x ops)
  then show ?case
    by (cases x)
       (simp_all add: apply_ops_Cons add_registry_ok remove_registry_ok
          del: apply_ops.simps apply_op.simps index_apply_op.simps)
qed

lemma index_add_subscriptions:
  "subscriptions (snd (index_addCleanupListener l m)) =
     (case cleanupListeners m of None \<Rightarrow> subscriptions m @ index_handlers
      | Some ls \<Rightarrow> subscriptions m)"
  by (simp add: index_addCleanupListener_def index_installExitListeners_def listenedSignals_def
      process_on_def index_handlers_def split: option.split)

lemma index_remove_initialized:
  "(cleanupListeners (snd (index_removeCleanupListener l m)) = None) = (cleanupListeners m = None)"
  by (simp add: index_removeCleanupListener_def set_delete_def split: option.split)

lemma index_subscriptions_initialized:
  "cleanupListeners m \<noteq> None \<Longrightarrow>
   subscriptions (snd (apply_ops index_apply_op ops m)) = subscriptions m"
proof (induction ops arbitrary: m)
  case Nil
  then show ?case by simp
next
  case (Cons x ops)
  show ?case
  proof (cases x)
    case (Add l)
    have "cleanupListeners (snd (index_addCleanupListener l m)) \<noteq> None" by simp
    from Cons.IH[OF this] show ?thesis
      using Add Cons.prems
      by (auto simp: apply_ops_Cons index_add_subscriptions
          simp del: apply_ops.simps apply_op.simps index_apply_op.simps)
  next
    case (Remove l)
    have "cleanupListeners (snd (index_removeCleanupListener l m)) \<noteq> None"
      using Cons.prems by (simp add: index_remove_initialized)
    from Cons.IH[OF this] show ?thesis
      using Remove
      by (simp add: apply_ops_Cons del: apply_ops.simps apply_op.simps index_apply_op.simps)
  qed
qed

lemma index_subscriptions_uninitialized:
  "cleanupListeners m = None \<Longrightarrow>
   subscriptions (snd (apply_ops index_apply_op ops m)) =
     (if list_ex is_add ops then subscriptions m @ index_handlers else subscriptions m)"
proof (induction ops arbitrary: m)
  case Nil
  then show ?case by simp
next
  case (Cons x ops)
  show ?case
  proof (cases x)
    case (Add l)
    have "cleanupListeners (snd (index_addCleanupListener l m)) \<noteq> None" by simp
    from index_subscriptions_initialized[OF this, of ops] show ?thesis
      using Add Cons.prems
      by (simp add: apply_ops_Cons index_add_subscriptions
          del: apply_ops.simps apply_op.simps index_apply_op.simps)
  next
    case (Remove l)
    have "cleanupListeners (snd (index_removeCleanupListener l m)) = None"
      using Cons.prems by (simp add: index_remove_initialized)
    from Cons.IH[OF this] show ?thesis
      using Remove
      by (simp add: apply_ops_Cons del: apply_ops.simps apply_op.simps index_apply_op.simps)
  qed
qed

text \<open>
  Claim C10, as amended. For every sequence of \<open>add\<close> and \<open>remove\<close> operations
  the exported instance of the class and the module-level implementation hold the same
  listeners and \<open>removeCleanupListener\<close> returns the same booleans. Every
  \<open>addCleanupListener\<close> of the class returns a remover handle, every one of the
  module-level implementation returns nothing. The module-level implementation
  never unsubscribes in \<open>removeCleanupListener\<close>: once a listener has been added its
  eight handlers stay subscribed, also after the last listener is removed.
\<close>

theorem implementations_agree_on_removals:
  "removals (fst (apply_ops apply_op ops (asyncCleanup :: ('l, 'e) world))) =
     removals (fst (apply_ops index_apply_op ops (index_module :: ('l, 'e) world))) \<and>
   listeners (snd (apply_ops apply_op ops (asyncCleanup :: ('l, 'e) world))) =
     listeners (snd (apply_ops index_apply_op ops (index_module :: ('l, 'e) world))) \<and>
   list_all is_remover (additions (fst (apply_ops apply_op ops (asyncCleanup :: ('l, 'e) world)))) \<and>
   list_all (\<lambda>r. r = Undefined)
     (additions (fst (apply_ops index_apply_op ops (index_module :: ('l, 'e) world)))) \<and>
   subscriptions (snd (apply_ops index_apply_op ops (index_module :: ('l, 'e) world))) =
     (if list_ex is_add ops then index_handlers else [])"
proof -
  have "listeners (asyncCleanup :: ('l, 'e) world) = listeners (index_module :: ('l, 'e) world)"
    by (simp add: listeners_def asyncCleanup_def new_AsyncCleanup_def index_module_def)
  from implementations_simulate[OF this, of ops]
    index_subscriptions_uninitialized[of "index_module :: ('l, 'e) world" ops]
  show ?thesis by (simp add: index_module_def)
qed

text \<open>
  Claim C10 as stated fails at the first \<open>add\<close>: the class returns the remover
  \<open>this.remove.bind(this, listener)\<close>, the module-level function is declared \<open>void\<close>.
\<close>

theorem add_returns_differ:
  "fst (addCleanupListener (0::nat) (asyncCleanup :: (nat, string) world)) = Remover 23 0 \<and>
   fst (index_addCleanupListener (0::nat) (index_module :: (nat, string) world)) = Undefined \<and>
   fst (apply_ops apply_op [Add (0::nat)] (asyncCleanup :: (nat, string) world)) \<noteq>
     fst (apply_ops index_apply_op [Add 0] (index_module :: (nat, string) world))"
  by (simp add: addCleanupListener_def add_def Let_def asyncCleanup_def new_AsyncCleanup_def
      split_beta)

end
